theory Spec2Isabelle
  imports Main
begin

section \<open>JavaScript values of the request body\<close>

text \<open>
  \<^verbatim>\<open>const { url, maxPages, csvFile, headless } = req.body;\<close>
  The body is parsed JSON, so a field is any JSON value, or missing (\<open>JUndefined\<close>).
  Strings are byte lists (UTF-8). A number is given by the text \<open>String()\<close> yields for it
  (\<open>5\<close>, \<open>0.5\<close>, \<open>-3\<close>, \<open>1e+21\<close>): the handler only tests numbers for truthiness and
  interpolates them, and both depend on that text alone. An object is the list of its
  own properties.
\<close>

datatype js_error = TypeError | SystemError

datatype jsval =
    JUndefined
  | JNull
  | JBool bool
  | JNum string
  | JStr string
  | JArray "jsval list"
  | JObject "(string \<times> jsval) list"

record request =
  url :: jsval
  maxPages :: jsval
  csvFile :: jsval
  headless :: jsval

text \<open>
  Truthiness, as \<^verbatim>\<open>if (x)\<close>, \<^verbatim>\<open>!x\<close> and \<^verbatim>\<open>x ? a : b\<close> test it. The falsy
  numbers are \<open>0\<close>, \<open>-0\<close> and \<open>NaN\<close>, rendered \<open>0\<close>, \<open>0\<close> and \<open>NaN\<close>; arrays and
  objects are truthy.
\<close>

fun truthy :: "jsval \<Rightarrow> bool" where
  "truthy JUndefined = False"
| "truthy JNull = False"
| "truthy (JBool b) = b"
| "truthy (JNum t) = (t \<noteq> ''0'' \<and> t \<noteq> ''NaN'')"
| "truthy (JStr s) = (s \<noteq> [])"
| "truthy (JArray xs) = True"
| "truthy (JObject kvs) = True"

text \<open>
  String conversion, as a template literal \<^verbatim>\<open>`${x}`\<close> performs it. An array is
  the conversions of its elements joined by commas, \<open>null\<close> and \<open>undefined\<close> elements
  giving the empty string. An object is \<open>[object Object]\<close>, unless it has an own
  property \<open>toString\<close>: a JSON value is never a function, so neither that property nor
  any \<open>valueOf\<close> can be called, and the conversion throws a TypeError.
\<close>

fun to_string :: "jsval \<Rightarrow> js_error + string"
  and join_elements :: "jsval list \<Rightarrow> js_error + string" where
  "to_string JUndefined = Inr ''undefined''"
| "to_string JNull = Inr ''null''"
| "to_string (JBool b) = Inr (if b then ''true'' else ''false'')"
| "to_string (JNum t) = Inr t"
| "to_string (JStr s) = Inr s"
| "to_string (JArray xs) = join_elements xs"
| "to_string (JObject kvs) =
     (if ''toString'' \<in> fst ` set kvs then Inl TypeError else Inr ''[object Object]'')"
| "join_elements [] = Inr []"
| "join_elements (x # xs) =
     (case (if x = JUndefined \<or> x = JNull then Inr [] else to_string x) of
        Inl e \<Rightarrow> Inl e
      | Inr s \<Rightarrow>
          if xs = [] then Inr s
          else (case join_elements xs of Inl e \<Rightarrow> Inl e | Inr t \<Rightarrow> Inr (s @ '','' @ t)))"

section \<open>The path module (POSIX)\<close>

text \<open>
  \<open>path.join\<close> and \<open>path.basename\<close> of Node.js, POSIX flavour. \<open>join\<close> glues its
  non-empty arguments with a slash and normalises the result: empty and \<open>.\<close> segments
  are dropped, a \<open>..\<close> segment removes the segment before it (at the root of an
  absolute path it is dropped, in front of a relative path it is kept), a trailing slash
  is preserved.
\<close>

fun split_slash :: "string \<Rightarrow> string list" where
  "split_slash [] = [[]]"
| "split_slash (c # cs) =
     (if c = CHR ''/'' then [] # split_slash cs
      else (case split_slash cs of [] \<Rightarrow> [[c]] | s # ss \<Rightarrow> (c # s) # ss))"

text \<open>
  \<open>normalizeString\<close>: the segments kept so far are held in reverse, the last one
  first.
\<close>

fun normalize_segments :: "bool \<Rightarrow> string list \<Rightarrow> string list \<Rightarrow> string list" where
  "normalize_segments allowAboveRoot res [] = rev res"
| "normalize_segments allowAboveRoot res (s # ss) =
     (if s = [] \<or> s = ''.'' then normalize_segments allowAboveRoot res ss
      else if s = ''..'' then
        (case res of
           [] \<Rightarrow> normalize_segments allowAboveRoot (if allowAboveRoot then [''..''] else []) ss
         | r # rs \<Rightarrow>
             if r = ''..''
             then normalize_segments allowAboveRoot (if allowAboveRoot then ''..'' # res else res) ss
             else normalize_segments allowAboveRoot rs ss)
      else normalize_segments allowAboveRoot (s # res) ss)"

fun join_slash :: "string list \<Rightarrow> string" where
  "join_slash [] = []"
| "join_slash [s] = s"
| "join_slash (s # t # ss) = s @ CHR ''/'' # join_slash (t # ss)"

definition normalize :: "string \<Rightarrow> string" where
  "normalize path =
     (if path = [] then ''.''
      else
        let isAbsolute = (hd path = CHR ''/'');
            trailingSeparator = (last path = CHR ''/'');
            p = join_slash (normalize_segments (\<not> isAbsolute) [] (split_slash path))
        in if p = [] then (if isAbsolute then ''/'' else if trailingSeparator then ''./'' else ''.'')
           else (if isAbsolute then ''/'' else []) @ p @ (if trailingSeparator then ''/'' else []))"

definition join :: "string list \<Rightarrow> string" where
  "join args =
     (case filter (\<lambda>a. a \<noteq> []) args of
        [] \<Rightarrow> ''.''
      | a # as \<Rightarrow> normalize (join_slash (a # as)))"

text \<open>\<open>path.basename\<close>: trailing slashes are ignored, then the part after the last slash.\<close>

definition basename :: "string \<Rightarrow> string" where
  "basename path =
     rev (takeWhile (\<lambda>c. c \<noteq> CHR ''/'') (dropWhile (\<lambda>c. c = CHR ''/'') (rev path)))"

section \<open>The file system\<close>

text \<open>
  A file system maps a path to what is there. \<open>fs.existsSync\<close> is true for files and
  directories alike; \<open>fs.unlinkSync\<close> removes a file and throws on anything else.
\<close>

datatype entry = File string | Directory

type_synonym filesystem = "string \<Rightarrow> entry option"

definition existsSync :: "filesystem \<Rightarrow> string \<Rightarrow> bool" where
  "existsSync fs p = (fs p \<noteq> None)"

definition unlinkSync :: "filesystem \<Rightarrow> string \<Rightarrow> js_error + filesystem" where
  "unlinkSync fs p =
     (case fs p of
        Some (File _) \<Rightarrow> Inr (fs(p := None))
      | _ \<Rightarrow> Inl SystemError)"

section \<open>Configuration\<close>

text \<open>
  \<^verbatim>\<open>const PYTHON_PATH = process.env.PYTHON_PATH || "python";\<close> and its siblings:
  an unset or empty variable gives the default.
\<close>

record config =
  dirname :: string
  PYTHON_PATH :: string
  PYTHON_SCRIPT :: string
  CSV_FILE :: string

definition env_or :: "(string \<rightharpoonup> string) \<Rightarrow> string \<Rightarrow> string \<Rightarrow> string" where
  "env_or env name dflt = (case env name of Some v \<Rightarrow> (if v \<noteq> [] then v else dflt) | None \<Rightarrow> dflt)"

definition load_config :: "string \<Rightarrow> (string \<rightharpoonup> string) \<Rightarrow> config" where
  "load_config dir env =
     \<lparr> dirname = dir,
       PYTHON_PATH = env_or env ''PYTHON_PATH'' ''python'',
       PYTHON_SCRIPT = env_or env ''PYTHON_SCRIPT'' (join [dir, ''automated_ad_collector.py'']),
       CSV_FILE = env_or env ''CSV_FILE'' (join [dir, ''ad_data_collection.csv'']) \<rparr>"

section \<open>The child process as the handler sees it\<close>

text \<open>
  \<open>exec(cmd, callback)\<close> hands a command string to the shell. The handler observes the
  \<open>data\<close> events of the two pipes in arrival order and, once, the callback's arguments
  \<open>(error, stdout, stderr)\<close>; the program may have changed the file system meanwhile.
\<close>

datatype stream = Stdout | Stderr

datatype error_code = ExitStatus int | ErrorName string

record exec_error =
  err_message :: string
  err_code :: "error_code option"
  err_signal :: "string option"

record run =
  run_chunks :: "(stream \<times> string) list"
  run_error :: "exec_error option"
  run_stdout :: string
  run_stderr :: string
  run_fs :: filesystem

text \<open>
  How \<open>child_process\<close> can be asked to start a program: \<open>exec(command)\<close> gives one
  string to the shell, \<open>execFile(file, args)\<close> gives a program and its argument list.
\<close>

datatype invocation = Exec string | ExecFile string "string list"

text \<open>What the outside world does with a command started on a file system.\<close>

type_synonym runner = "string \<Rightarrow> filesystem \<Rightarrow> run"

section \<open>Responses\<close>

datatype body = ErrorBody string | ResultBody bool string "string option"

datatype response = Json nat body | SendText nat string | SendFile string

definition nl :: string where
  "nl = [CHR 0x0A]"

text \<open>The cross mark U+274C, in UTF-8.\<close>

definition cross_mark :: string where
  "cross_mark = [CHR 0xE2, CHR 0x9D, CHR 0x8C]"

section \<open>POST /api/run-collector\<close>

text \<open>\<^verbatim>\<open>const finalCsvFile = csvFile ? path.join(__dirname, csvFile) : CSV_FILE;\<close>
  \<open>path.join\<close> throws a TypeError on an argument that is not a string.\<close>

definition finalCsvFile :: "config \<Rightarrow> jsval \<Rightarrow> js_error + string" where
  "finalCsvFile cfg csv =
     (if truthy csv
      then (case csv of JStr s \<Rightarrow> Inr (join [dirname cfg, s]) | _ \<Rightarrow> Inl TypeError)
      else Inr (CSV_FILE cfg))"

text \<open>\<^verbatim>\<open>if (fs.existsSync(finalCsvFile)) fs.unlinkSync(finalCsvFile);\<close>\<close>

definition delete_old :: "filesystem \<Rightarrow> string \<Rightarrow> js_error + filesystem" where
  "delete_old fs p = (if existsSync fs p then unlinkSync fs p else Inr fs)"

text \<open>
  The command string, lines 34 to 36. Interpolating \<open>url\<close> or \<open>maxPages\<close> can throw
  (see \<open>to_string\<close>).
\<close>

definition quoted :: "string \<Rightarrow> string" where
  "quoted s = CHR 0x22 # s @ [CHR 0x22]"

definition build_cmd :: "config \<Rightarrow> request \<Rightarrow> string \<Rightarrow> js_error + string" where
  "build_cmd cfg req final =
     (case to_string (url req) of
        Inl e \<Rightarrow> Inl e
      | Inr u \<Rightarrow>
          let cmd = quoted (PYTHON_PATH cfg) @ '' '' @ quoted (PYTHON_SCRIPT cfg)
                      @ '' --url '' @ quoted u @ '' --csv-file '' @ quoted final
          in case (if truthy (maxPages req)
                   then (case to_string (maxPages req) of
                           Inl e \<Rightarrow> Inl e
                         | Inr m \<Rightarrow> Inr (cmd @ '' --max-pages '' @ m))
                   else Inr cmd) of
               Inl e \<Rightarrow> Inl e
             | Inr cmd1 \<Rightarrow> Inr (if truthy (headless req) then cmd1 @ '' --headless'' else cmd1))"

text \<open>The two \<open>data\<close> handlers do the same: \<^verbatim>\<open>logs += data.toString();\<close>\<close>

definition on_data :: "string \<Rightarrow> string \<Rightarrow> string" where
  "on_data logs d = logs @ d"

definition live_logs :: "(stream \<times> string) list \<Rightarrow> string" where
  "live_logs evs = foldl on_data [] (map snd evs)"


text \<open>The first two lines of the callback, which add the buffered output.\<close>

definition add_buffered :: "string \<Rightarrow> string \<Rightarrow> string \<Rightarrow> string" where
  "add_buffered logs out err =
     (let logs1 = (if out \<noteq> [] then logs @ nl @ out else logs)
      in if err \<noteq> [] then logs1 @ nl @ err else logs1)"

text \<open>The callback of \<open>exec\<close>, lines 43 to 62.\<close>

definition on_exit :: "string \<Rightarrow> filesystem \<Rightarrow> string \<Rightarrow> exec_error option \<Rightarrow> string \<Rightarrow> string \<Rightarrow> response" where
  "on_exit final fs logs0 error out err =
     (let logs = add_buffered logs0 out err
      in case error of
           Some e \<Rightarrow> Json 500 (ResultBody False (logs @ nl @ cross_mark @ '' Error: '' @ err_message e) None)
         | None \<Rightarrow>
             if existsSync fs final
             then Json 200 (ResultBody True logs (Some (''/download/'' @ basename final)))
             else Json 500 (ResultBody False (logs @ nl @ ''CSV not generated'') None))"

text \<open>
  The whole request: the response (or the exception the handler threw, which Express
  answers itself), the commands given to \<open>exec\<close>, the file system the child was started
  on, and the file system at the end.
\<close>

record outcome =
  result :: "js_error + response"
  spawned :: "invocation list"
  fs_at_spawn :: "filesystem option"
  fs_end :: filesystem

definition run_collector :: "config \<Rightarrow> runner \<Rightarrow> filesystem \<Rightarrow> request \<Rightarrow> outcome" where
  "run_collector cfg world fs req =
     (if \<not> truthy (url req)
      then \<lparr> result = Inr (Json 400 (ErrorBody ''URL is required'')), spawned = [],
             fs_at_spawn = None, fs_end = fs \<rparr>
      else case finalCsvFile cfg (csvFile req) of
        Inl e \<Rightarrow> \<lparr> result = Inl e, spawned = [], fs_at_spawn = None, fs_end = fs \<rparr>
      | Inr final \<Rightarrow>
          (case delete_old fs final of
             Inl e \<Rightarrow> \<lparr> result = Inl e, spawned = [], fs_at_spawn = None, fs_end = fs \<rparr>
           | Inr fs1 \<Rightarrow>
               (case build_cmd cfg req final of
                  Inl e \<Rightarrow> \<lparr> result = Inl e, spawned = [], fs_at_spawn = None, fs_end = fs1 \<rparr>
                | Inr cmd \<Rightarrow>
                    let r = world cmd fs1
                    in \<lparr> result = Inr (on_exit final (run_fs r) (live_logs (run_chunks r))
                                          (run_error r) (run_stdout r) (run_stderr r)),
                         spawned = [Exec cmd], fs_at_spawn = Some fs1, fs_end = run_fs r \<rparr>)))"

section \<open>GET /download/:filename\<close>

definition download :: "config \<Rightarrow> filesystem \<Rightarrow> string \<Rightarrow> response" where
  "download cfg fs filename =
     (let filePath = join [dirname cfg, filename]
      in if existsSync fs filePath then SendFile filePath else SendText 404 ''File not found'')"

section \<open>Notions used to state the properties\<close>


text \<open>The chunks of one pipe, concatenated.\<close>

definition buffered :: "stream \<Rightarrow> (stream \<times> string) list \<Rightarrow> string" where
  "buffered s evs = concat (map snd (filter (\<lambda>e. fst e = s) evs))"

text \<open>
  \<open>exec\<close> is called without options (line 43), so each pipe is buffered up to the
  default \<open>maxBuffer\<close> of 1024 * 1024 bytes. The chunk that takes a pipe past the limit
  is cut to what still fits, the child is killed and both pipes are closed; that chunk
  is the last one the \<open>data\<close> handlers see, and they see it whole. (Node cuts at that
  many characters; on one-byte characters these are bytes.) The result: the chunks
  delivered, the two buffers, and the pipe that overflowed, if one did.
\<close>

definition maxBuffer :: nat where
  "maxBuffer = 1024 * 1024"

fun exec_buffers ::
  "nat \<Rightarrow> string \<Rightarrow> string \<Rightarrow> (stream \<times> string) list
     \<Rightarrow> (stream \<times> string) list \<times> string \<times> string \<times> stream option" where
  "exec_buffers limit out err [] = ([], out, err, None)"
| "exec_buffers limit out err ((Stdout, d) # es) =
     (if limit < length out + length d
      then ([(Stdout, d)], out @ take (limit - length out) d, err, Some Stdout)
      else (case exec_buffers limit (out @ d) err es of
              (ds, out', err', over) \<Rightarrow> ((Stdout, d) # ds, out', err', over)))"
| "exec_buffers limit out err ((Stderr, d) # es) =
     (if limit < length err + length d
      then ([(Stderr, d)], out, err @ take (limit - length err) d, Some Stderr)
      else (case exec_buffers limit out (err @ d) es of
              (ds, out', err', over) \<Rightarrow> ((Stderr, d) # ds, out', err', over)))"

text \<open>
  A child that writes the chunks \<open>evs\<close>, changes the file system by \<open>effect\<close> and exits
  with \<open>status\<close>, as \<open>exec\<close> reports it to its callback. When a pipe overflowed the
  error says so. Otherwise there is no error for status 0, and for any other status an
  error whose message is \<open>Command failed:\<close>, the command and the buffered stderr, and
  whose code is the exit status.
\<close>

definition exec_report :: "int \<Rightarrow> (stream \<times> string) list \<Rightarrow> (filesystem \<Rightarrow> filesystem) \<Rightarrow> runner" where
  "exec_report status evs effect cmd fs =
     (case exec_buffers maxBuffer [] [] evs of
        (delivered, out, err, over) \<Rightarrow>
          \<lparr> run_chunks = delivered,
            run_error =
              (case over of
                 Some s \<Rightarrow>
                   Some \<lparr> err_message =
                            (case s of Stdout \<Rightarrow> ''stdout'' | Stderr \<Rightarrow> ''stderr'')
                              @ '' maxBuffer length exceeded'',
                          err_code = Some (ErrorName ''ERR_CHILD_PROCESS_STDIO_MAXBUFFER''),
                          err_signal = None \<rparr>
               | None \<Rightarrow>
                   if status = 0 then None
                   else Some \<lparr> err_message = ''Command failed: '' @ cmd @ nl @ err,
                               err_code = Some (ExitStatus status), err_signal = None \<rparr>),
            run_stdout = out,
            run_stderr = err,
            run_fs = effect fs \<rparr>)"

text \<open>
  The invocation the specification asks for: the interpreter started on the script with
  the arguments \<open>--url <value> --csv-file <path> [--max-pages <n>] [--headless]\<close>, each
  one an element of a list.
\<close>

definition spec_discrete_args :: "request \<Rightarrow> string \<Rightarrow> js_error + string list" where
  "spec_discrete_args req final =
     (case to_string (url req) of
        Inl e \<Rightarrow> Inl e
      | Inr u \<Rightarrow>
          (case (if truthy (maxPages req)
                 then (case to_string (maxPages req) of
                         Inl e \<Rightarrow> Inl e
                       | Inr m \<Rightarrow> Inr [''--max-pages'', m])
                 else Inr []) of
             Inl e \<Rightarrow> Inl e
           | Inr pages \<Rightarrow>
               Inr ([''--url'', u, ''--csv-file'', final] @ pages
                      @ (if truthy (headless req) then [''--headless''] else []))))"

definition spec_invocation :: "config \<Rightarrow> request \<Rightarrow> string \<Rightarrow> invocation \<Rightarrow> bool" where
  "spec_invocation cfg req final call =
     (case call of
        Exec _ \<Rightarrow> False
      | ExecFile file args \<Rightarrow>
          file = PYTHON_PATH cfg \<and>
          (case spec_discrete_args req final of
             Inl e \<Rightarrow> False
           | Inr as \<Rightarrow> args = PYTHON_SCRIPT cfg # as))"

text \<open>
  Absolute normalised paths, such as \<open>__dirname\<close> is one, are given by their segments.
  A plain segment is a file or directory name: not empty, not \<open>.\<close> or \<open>..\<close>, without
  a slash. A path is under a root if it is the root or continues it after a slash.
\<close>

definition plain_segment :: "string \<Rightarrow> bool" where
  "plain_segment s = (s \<noteq> [] \<and> s \<noteq> ''.'' \<and> s \<noteq> ''..'' \<and> CHR ''/'' \<notin> set s)"

definition abs_path :: "string list \<Rightarrow> string" where
  "abs_path segs = concat (map (\<lambda>s. CHR ''/'' # s) segs)"

definition under :: "string \<Rightarrow> string \<Rightarrow> bool" where
  "under root p = (p = root \<or> take (Suc (length root)) p = root @ ''/'')"

text \<open>A service installed in \<open>/srv/app\<close> with no environment variable set, and a request.\<close>

definition app_config :: config where
  "app_config = load_config ''/srv/app'' Map.empty"

definition plain_request :: "string \<Rightarrow> request" where
  "plain_request name =
     \<lparr> url = JStr ''http://example.com'', maxPages = JUndefined, csvFile = JStr name,
       headless = JUndefined \<rparr>"

text \<open>The command this service builds for that request and an artifact path.\<close>

definition plain_command :: "string \<Rightarrow> string" where
  "plain_command final =
     quoted ''python'' @ '' '' @ quoted ''/srv/app/automated_ad_collector.py''
       @ '' --url '' @ quoted ''http://example.com'' @ '' --csv-file '' @ quoted final"






section \<open>Basic facts\<close>

lemma live_logs_concat: "live_logs evs = concat (map snd evs)"
proof -
  have "foldl on_data acc ds = acc @ concat ds" for acc ds
    by (induction ds arbitrary: acc) (simp_all add: on_data_def)
  then show ?thesis by (simp add: live_logs_def)
qed

lemma run_collector_started:
  assumes "truthy (url req)"
    and "finalCsvFile cfg (csvFile req) = Inr final"
    and "delete_old fs final = Inr fs1"
    and "build_cmd cfg req final = Inr cmd"
  shows "run_collector cfg world fs req =
     \<lparr> result = Inr (on_exit final (run_fs (world cmd fs1))
                    (live_logs (run_chunks (world cmd fs1)))
                    (run_error (world cmd fs1))
                    (run_stdout (world cmd fs1))
                    (run_stderr (world cmd fs1))),
       spawned = [Exec cmd], fs_at_spawn = Some fs1,
       fs_end = run_fs (world cmd fs1) \<rparr>"
  using assms by (simp add: run_collector_def Let_def)

lemma run_collector_not_built:
  assumes "truthy (url req)"
    and "finalCsvFile cfg (csvFile req) = Inr final"
    and "delete_old fs final = Inr fs1"
    and "build_cmd cfg req final = Inl e"
  shows "run_collector cfg world fs req =
     \<lparr> result = Inl e, spawned = [], fs_at_spawn = None, fs_end = fs1 \<rparr>"
  using assms by (simp add: run_collector_def)

lemma add_buffered_append:
  "add_buffered logs out err =
     logs @ (if out \<noteq> [] then nl @ out else []) @ (if err \<noteq> [] then nl @ err else [])"
  by (simp add: add_buffered_def Let_def)

lemma on_exit_error:
  "on_exit final fs logs (Some e) out err =
     Json 500 (ResultBody False
       (add_buffered logs out err @ nl @ cross_mark @ '' Error: '' @ err_message e) None)"
  by (simp add: on_exit_def Let_def)

lemma on_exit_missing:
  "\<not> existsSync fs final \<Longrightarrow>
   on_exit final fs logs None out err =
     Json 500 (ResultBody False (add_buffered logs out err @ nl @ ''CSV not generated'') None)"
  by (simp add: on_exit_def Let_def)

lemma on_exit_success:
  "existsSync fs final \<Longrightarrow>
   on_exit final fs logs None out err =
     Json 200 (ResultBody True (add_buffered logs out err) (Some (''/download/'' @ basename final)))"
  by (simp add: on_exit_def Let_def)


lemma app_config_simps:
  "dirname app_config = ''/srv/app''"
  "PYTHON_PATH app_config = ''python''"
  "PYTHON_SCRIPT app_config = ''/srv/app/automated_ad_collector.py''"
  "CSV_FILE app_config = ''/srv/app/ad_data_collection.csv''"
  by (simp_all add: app_config_def load_config_def env_or_def join_def normalize_def)

lemma finalCsvFile_report:
  "finalCsvFile app_config (JStr ''report.csv'') = Inr ''/srv/app/report.csv''"
  by (simp add: finalCsvFile_def app_config_simps join_def normalize_def)

lemma example_request_truthy: "truthy (url (plain_request name))"
  by (simp add: plain_request_def)

lemma example_final:
  "finalCsvFile app_config (csvFile (plain_request ''report.csv'')) = Inr ''/srv/app/report.csv''"
  by (simp add: plain_request_def finalCsvFile_report)

lemma delete_old_absent: "fs p = None \<Longrightarrow> delete_old fs p = Inr fs"
  by (simp add: delete_old_def existsSync_def)

lemma delete_old_file: "fs p = Some (File c) \<Longrightarrow> delete_old fs p = Inr (fs(p := None))"
  by (simp add: delete_old_def existsSync_def unlinkSync_def)

lemma example_cmd:
  "build_cmd app_config (plain_request name) final = Inr (plain_command final)"
  by (simp add: build_cmd_def plain_request_def plain_command_def app_config_simps)

lemma delete_old_elsewhere:
  "delete_old fs p = Inr fs1 \<Longrightarrow> q \<noteq> p \<Longrightarrow> fs1 q = fs q"
  by (auto simp: delete_old_def unlinkSync_def split: if_splits option.splits entry.splits)

subsection \<open>Paths\<close>

lemma split_slash_nonempty: "split_slash s \<noteq> []"
  by (induction s) (auto split: list.splits)

lemma split_slash_no_slash: "CHR ''/'' \<notin> set s \<Longrightarrow> split_slash s = [s]"
  by (induction s) auto

lemma split_slash_append:
  "split_slash (a @ CHR ''/'' # b) = split_slash a @ split_slash b"
  by (induction a) (auto simp: split_slash_nonempty split: list.splits)

lemma split_slash_abs_path:
  "CHR ''/'' \<notin> set s \<Longrightarrow> \<forall>t \<in> set segs. CHR ''/'' \<notin> set t \<Longrightarrow>
   split_slash (s @ abs_path segs) = s # segs"
proof (induction segs arbitrary: s)
  case Nil
  then show ?case by (simp add: abs_path_def split_slash_no_slash)
next
  case (Cons t ts)
  have "split_slash (s @ abs_path (t # ts)) = split_slash s @ split_slash (t @ abs_path ts)"
    by (simp add: abs_path_def split_slash_append)
  with Cons show ?case by (simp add: split_slash_no_slash)
qed

lemma normalize_segments_plain:
  "\<forall>s \<in> set xs. plain_segment s \<Longrightarrow>
   normalize_segments allow res (xs @ ys) = normalize_segments allow (rev xs @ res) ys"
  by (induction xs arbitrary: res) (auto simp: plain_segment_def)

lemma normalize_segments_no_dotdot:
  "''..'' \<notin> set ys \<Longrightarrow>
   normalize_segments allow res ys = rev res @ filter (\<lambda>s. s \<noteq> [] \<and> s \<noteq> ''.'') ys"
  by (induction ys arbitrary: res) auto

lemma join_slash_abs_path: "segs \<noteq> [] \<Longrightarrow> CHR ''/'' # join_slash segs = abs_path segs"
  by (induction segs rule: join_slash.induct) (auto simp: abs_path_def)

lemma join_slash_eq_Nil: "\<forall>s \<in> set segs. s \<noteq> [] \<Longrightarrow> join_slash segs = [] \<longleftrightarrow> segs = []"
  by (induction segs rule: join_slash.induct) auto

lemma abs_path_hd: "segs \<noteq> [] \<Longrightarrow> hd (abs_path segs) = CHR ''/'' \<and> abs_path segs \<noteq> []"
  by (cases segs) (auto simp: abs_path_def)

lemma normalize_absolute:
  assumes "path \<noteq> []" "hd path = CHR ''/''"
    and "join_slash (normalize_segments False [] (split_slash path)) = p" "p \<noteq> []"
  shows "normalize path = CHR ''/'' # p @ (if last path = CHR ''/'' then ''/'' else [])"
  using assms by (simp add: normalize_def Let_def)

lemma join_under_root:
  assumes segs: "segs \<noteq> []" "\<forall>s \<in> set segs. plain_segment s"
    and name: "name \<noteq> []" "''..'' \<notin> set (split_slash name)"
  shows "join [abs_path segs, name] =
     abs_path (segs @ filter (\<lambda>s. s \<noteq> [] \<and> s \<noteq> ''.'') (split_slash name))
       @ (if last name = CHR ''/'' then ''/'' else [])"
proof -
  define root where "root = abs_path segs"
  define kept where "kept = filter (\<lambda>s. s \<noteq> [] \<and> s \<noteq> ''.'') (split_slash name)"
  define joined where "joined = root @ CHR ''/'' # name"
  have noslash: "\<forall>t \<in> set segs. CHR ''/'' \<notin> set t"
    using segs(2) by (simp add: plain_segment_def)
  have root: "root \<noteq> []" "hd root = CHR ''/''"
    using abs_path_hd [OF segs(1)] by (simp_all add: root_def)
  have joined: "joined \<noteq> []" "hd joined = CHR ''/''" "last joined = last name"
    using root name(1) by (simp_all add: joined_def)
  have "split_slash root = [] # segs"
    using split_slash_abs_path [of "[]" segs] noslash by (simp add: root_def)
  then have split: "split_slash joined = ([] # segs) @ split_slash name"
    by (simp add: joined_def split_slash_append)
  have "normalize_segments False [] ([] # segs @ split_slash name)
      = normalize_segments False [] (segs @ split_slash name)"
    by simp
  also have "\<dots> = normalize_segments False (rev segs @ []) (split_slash name)"
    using segs(2) by (rule normalize_segments_plain)
  also have "\<dots> = segs @ kept"
    using normalize_segments_no_dotdot [OF name(2), of False "rev segs"] by (simp add: kept_def)
  finally have norm: "normalize_segments False [] (split_slash joined) = segs @ kept"
    by (simp add: split)
  have "\<forall>s \<in> set (segs @ kept). s \<noteq> []"
    using segs(2) by (auto simp: plain_segment_def kept_def)
  then have nonempty: "join_slash (segs @ kept) \<noteq> []"
    using join_slash_eq_Nil [of "segs @ kept"] segs(1) by simp
  have "join [root, name] = normalize joined"
    using root(1) name(1) by (simp add: join_def joined_def)
  also have "\<dots> = CHR ''/'' # join_slash (segs @ kept) @ (if last joined = CHR ''/'' then ''/'' else [])"
    using joined(1,2) _ nonempty by (rule normalize_absolute) (simp add: norm)
  finally have j: "join [root, name] =
      (CHR ''/'' # join_slash (segs @ kept)) @ (if last joined = CHR ''/'' then ''/'' else [])"
    by simp
  have "CHR ''/'' # join_slash (segs @ kept) = abs_path (segs @ kept)"
    using segs(1) by (intro join_slash_abs_path) simp
  then show ?thesis
    using j by (simp only: joined(3) root_def kept_def)
qed

lemma abs_path_append: "abs_path (xs @ ys) = abs_path xs @ abs_path ys"
  by (simp add: abs_path_def)

lemma under_append: "under root (root @ abs_path ys @ (if b then ''/'' else []))"
  by (cases ys) (auto simp: under_def abs_path_def)

lemma plain_segment_last: "plain_segment name \<Longrightarrow> last name \<noteq> CHR ''/''"
  unfolding plain_segment_def by (metis last_in_set)

lemma join_plain:
  assumes "segs \<noteq> []" "\<forall>s \<in> set segs. plain_segment s" "plain_segment name"
  shows "join [abs_path segs, name] = abs_path segs @ CHR ''/'' # name"
proof -
  have "split_slash name = [name]" "name \<noteq> []"
    using assms(3) by (auto simp: plain_segment_def split_slash_no_slash)
  moreover have "last name \<noteq> CHR ''/''"
    using assms(3) by (rule plain_segment_last)
  moreover have "name \<noteq> ''.''" "name \<noteq> ''..''"
    using assms(3) by (auto simp: plain_segment_def)
  ultimately show ?thesis
    using join_under_root [OF assms(1,2), of name]
    by (simp add: abs_path_append) (simp add: abs_path_def)
qed

lemma takeWhile_stop:
  "\<forall>x \<in> set xs. P x \<Longrightarrow> \<not> P y \<Longrightarrow> takeWhile P (xs @ y # ys) = xs"
  by (induction xs) simp_all

lemma basename_plain:
  assumes "plain_segment name"
  shows "basename (root @ CHR ''/'' # name) = name"
proof -
  have ns: "CHR ''/'' \<notin> set name" and ne: "name \<noteq> []"
    using assms by (auto simp: plain_segment_def)
  obtain c cs where r: "rev name = c # cs"
    using ne by (cases "rev name") auto
  have c: "c \<noteq> CHR ''/''"
    using ns r by (metis list.set_intros(1) set_rev)
  have d: "dropWhile (\<lambda>c. c = CHR ''/'') (rev name @ CHR ''/'' # rev root) = rev name @ CHR ''/'' # rev root"
    using c by (simp add: r)
  have "\<forall>x \<in> set (rev name). x \<noteq> CHR ''/''"
    using ns by auto
  then have t: "takeWhile (\<lambda>c. c \<noteq> CHR ''/'') (rev name @ CHR ''/'' # rev root) = rev name"
    by (intro takeWhile_stop) simp_all
  show ?thesis
    unfolding basename_def by (simp only: rev_append rev.simps append_assoc append.simps d t rev_rev_ident)
qed

lemma normalize_segments_step:
  assumes "\<forall>r \<in> set res. r \<noteq> []"
  shows "\<exists>res'. (\<forall>r \<in> set res'. r \<noteq> []) \<and>
           normalize_segments allow res (s # ss) = normalize_segments allow res' ss"
proof (cases "s = [] \<or> s = ''.''")
  case True
  then have "normalize_segments allow res (s # ss) = normalize_segments allow res ss"
    by auto
  with assms show ?thesis by blast
next
  case False
  then have s: "s \<noteq> []" "s \<noteq> ''.''" by simp_all
  show ?thesis
  proof (cases "s = ''..''")
    case False
    with s have "normalize_segments allow res (s # ss) = normalize_segments allow (s # res) ss"
      by simp
    moreover have "\<forall>r \<in> set (s # res). r \<noteq> []"
      using assms s(1) by simp
    ultimately show ?thesis by blast
  next
    case up: True
    show ?thesis
    proof (cases res)
      case Nil
      then have "normalize_segments allow res (s # ss)
          = normalize_segments allow (if allow then [''..''] else []) ss"
        using up by simp
      moreover have "\<forall>r \<in> set (if allow then [''..''] else []). r \<noteq> []"
        by simp
      ultimately show ?thesis by blast
    next
      case (Cons r rs)
      show ?thesis
      proof (cases "r = ''..''")
        case True
        then have "normalize_segments allow res (s # ss)
            = normalize_segments allow (if allow then ''..'' # res else res) ss"
          using up Cons by simp
        moreover have "\<forall>r \<in> set (if allow then ''..'' # res else res). r \<noteq> []"
          using assms by simp
        ultimately show ?thesis by blast
      next
        case False
        then have "normalize_segments allow res (s # ss) = normalize_segments allow rs ss"
          using up Cons by simp
        moreover have "\<forall>r \<in> set rs. r \<noteq> []"
          using assms Cons by simp
        ultimately show ?thesis by blast
      qed
    qed
  qed
qed

lemma normalize_segments_nonempty:
  "\<forall>r \<in> set res. r \<noteq> [] \<Longrightarrow> \<forall>s \<in> set (normalize_segments allow res ss). s \<noteq> []"
proof (induction ss arbitrary: res)
  case Nil
  then show ?case by simp
next
  case (Cons s ss)
  obtain res' where "\<forall>r \<in> set res'. r \<noteq> []"
    and "normalize_segments allow res (s # ss) = normalize_segments allow res' ss"
    using normalize_segments_step [OF Cons.prems] by blast
  then show ?case
    using Cons.IH [of res'] by simp
qed

lemma join_normalises:
  assumes segs: "segs \<noteq> []" "\<forall>s \<in> set segs. plain_segment s"
    and name: "name \<noteq> []"
  shows "join [abs_path segs, name] =
     (if normalize_segments False [] (segs @ split_slash name) = [] then ''/''
      else abs_path (normalize_segments False [] (segs @ split_slash name))
             @ (if last name = CHR ''/'' then ''/'' else []))"
proof -
  define root where "root = abs_path segs"
  define ns where "ns = normalize_segments False [] (segs @ split_slash name)"
  define joined where "joined = root @ CHR ''/'' # name"
  have noslash: "\<forall>t \<in> set segs. CHR ''/'' \<notin> set t"
    using segs(2) by (simp add: plain_segment_def)
  have root: "root \<noteq> []" "hd root = CHR ''/''"
    using abs_path_hd [OF segs(1)] by (simp_all add: root_def)
  have joined: "joined \<noteq> []" "hd joined = CHR ''/''" "last joined = last name"
    using root name by (simp_all add: joined_def)
  have "split_slash root = [] # segs"
    using split_slash_abs_path [of "[]" segs] noslash by (simp add: root_def)
  then have "split_slash joined = ([] # segs) @ split_slash name"
    by (simp add: joined_def split_slash_append)
  then have norm: "normalize_segments False [] (split_slash joined) = ns"
    by (simp add: ns_def)
  have "\<forall>s \<in> set ns. s \<noteq> []"
    unfolding ns_def by (rule normalize_segments_nonempty) simp
  then have empty: "join_slash ns = [] \<longleftrightarrow> ns = []"
    by (rule join_slash_eq_Nil)
  have j: "join [root, name] = normalize joined"
    using root(1) name by (simp add: join_def joined_def)
  show ?thesis
  proof (cases "ns = []")
    case True
    then have "normalize joined = ''/''"
      using joined(1,2) by (simp add: normalize_def norm)
    then show ?thesis
      using True j by (simp add: root_def ns_def)
  next
    case False
    then have p: "join_slash ns \<noteq> []"
      using empty by simp
    have "normalize joined = CHR ''/'' # join_slash ns @ (if last joined = CHR ''/'' then ''/'' else [])"
      using joined(1,2) _ p by (rule normalize_absolute) (simp add: norm)
    moreover have "CHR ''/'' # join_slash ns = abs_path ns"
      using False by (rule join_slash_abs_path)
    ultimately have "normalize joined = abs_path ns @ (if last name = CHR ''/'' then ''/'' else [])"
      by (simp add: joined(3))
    then show ?thesis
      using False j by (simp add: root_def ns_def)
  qed
qed

lemma join_parent:
  assumes segs: "segs \<noteq> []" "\<forall>s \<in> set segs. plain_segment s"
    and x: "plain_segment x"
  shows "join [abs_path segs, ''../'' @ x] = abs_path (butlast segs @ [x])"
proof -
  have sx: "split_slash x = [x]" "x \<noteq> []" "x \<noteq> ''.''" "x \<noteq> ''..''"
    using x by (auto simp: plain_segment_def split_slash_no_slash)
  have "split_slash (''..'' @ CHR ''/'' # x) = [''..'', x]"
    using split_slash_append [of "''..''" x] sx(1) by simp
  then have sp: "split_slash (''../'' @ x) = [''..'', x]"
    by simp
  have "rev segs = rev (butlast segs @ [last segs])"
    using segs(1) by simp
  then have r: "rev segs = last segs # rev (butlast segs)"
    by simp
  have "plain_segment (last segs)"
    using segs by simp
  then have l: "last segs \<noteq> ''..''"
    by (simp add: plain_segment_def)
  have "normalize_segments False [] (segs @ [''..'', x])
      = normalize_segments False (rev segs @ []) [''..'', x]"
    using segs(2) by (rule normalize_segments_plain)
  also have "\<dots> = normalize_segments False (rev (butlast segs)) [x]"
    using l by (simp add: r)
  also have "\<dots> = butlast segs @ [x]"
    using sx by simp
  finally have ns: "normalize_segments False [] (segs @ split_slash (''../'' @ x))
      = butlast segs @ [x]"
    by (simp only: sp)
  have "last (''../'' @ x) \<noteq> CHR ''/''"
    using plain_segment_last [OF x] sx(2) by simp
  then have "last (''../'' @ x) = CHR ''/'' \<longleftrightarrow> False"
    by simp
  moreover have "join [abs_path segs, ''../'' @ x] =
     (if normalize_segments False [] (segs @ split_slash (''../'' @ x)) = [] then ''/''
      else abs_path (normalize_segments False [] (segs @ split_slash (''../'' @ x)))
             @ (if last (''../'' @ x) = CHR ''/'' then ''/'' else []))"
    using segs by (rule join_normalises) simp
  ultimately show ?thesis
    by (simp only: ns) simp
qed

lemma sibling_not_under:
  assumes "segs \<noteq> []" "plain_segment x" "x \<noteq> last segs"
  shows "\<not> under (abs_path segs) (abs_path (butlast segs @ [x]))"
proof
  assume u: "under (abs_path segs) (abs_path (butlast segs @ [x]))"
  define front where "front = abs_path (butlast segs)"
  have root: "abs_path segs = front @ CHR ''/'' # last segs"
    using assms(1) append_butlast_last_id [of segs] abs_path_append [of "butlast segs" "[last segs]"]
    by (simp add: front_def abs_path_def)
  have p: "abs_path (butlast segs @ [x]) = front @ CHR ''/'' # x"
    by (simp add: front_def abs_path_def)
  from u consider "front @ CHR ''/'' # x = front @ CHR ''/'' # last segs"
    | "take (Suc (length (abs_path segs))) (front @ CHR ''/'' # x) = abs_path segs @ ''/''"
    unfolding under_def p root by auto
  then show False
  proof cases
    case 1
    then show False using assms(3) by simp
  next
    case 2
    then have "\<exists>rest. front @ CHR ''/'' # x = (abs_path segs @ ''/'') @ rest"
      by (metis append_take_drop_id)
    then obtain rest where "front @ CHR ''/'' # x = front @ CHR ''/'' # (last segs @ CHR ''/'' # rest)"
      unfolding root by auto
    then have "x = last segs @ CHR ''/'' # rest"
      by simp
    then have "CHR ''/'' \<in> set x"
      by simp
    then show False
      using assms(2) by (simp add: plain_segment_def)
  qed
qed

section \<open>The command given to the shell\<close>

text \<open>
  C1. The program is not started with a list of discrete arguments. For every request
  that gets as far as the run (truthy \<open>url\<close>, path resolved, old file removed, \<open>url\<close>
  and a truthy \<open>maxPages\<close> convertible to strings), exactly one call of \<open>exec\<close> is made,
  with one command string for the shell: the quoted interpreter and script, \<open>--url\<close> and
  the quoted url, \<open>--csv-file\<close> and the quoted path, then \<open>--max-pages\<close> and the value if
  \<open>maxPages\<close> is truthy, then \<open>--headless\<close> if \<open>headless\<close> is truthy. The values of the
  request are pasted into the string as their string conversions, unescaped.
\<close>

theorem one_shell_command_string:
  assumes "truthy (url req)"
    and "finalCsvFile cfg (csvFile req) = Inr final"
    and "delete_old fs final = Inr fs1"
    and "to_string (url req) = Inr u"
    and "truthy (maxPages req) \<longrightarrow> to_string (maxPages req) = Inr m"
  shows "spawned (run_collector cfg world fs req) =
     [Exec (quoted (PYTHON_PATH cfg) @ '' '' @ quoted (PYTHON_SCRIPT cfg)
        @ '' --url '' @ quoted u
        @ '' --csv-file '' @ quoted final
        @ (if truthy (maxPages req) then '' --max-pages '' @ m else [])
        @ (if truthy (headless req) then '' --headless'' else []))]"
proof -
  have "build_cmd cfg req final =
     Inr (quoted (PYTHON_PATH cfg) @ '' '' @ quoted (PYTHON_SCRIPT cfg)
        @ '' --url '' @ quoted u
        @ '' --csv-file '' @ quoted final
        @ (if truthy (maxPages req) then '' --max-pages '' @ m else [])
        @ (if truthy (headless req) then '' --headless'' else []))"
    using assms(4,5) by (simp add: build_cmd_def Let_def)
  with assms(1-3) show ?thesis
    by (simp add: run_collector_started)
qed

theorem one_shell_command_string_witness:
  "truthy (url ((plain_request ''report.csv'')\<lparr>url := JArray [JStr ''http://a'', JNull, JNum ''1e+21''],
       maxPages := JNum ''0.5'', headless := JBool True\<rparr>)) \<and>
   finalCsvFile app_config (csvFile ((plain_request ''report.csv'')\<lparr>url := JArray [JStr ''http://a'', JNull, JNum ''1e+21''],
       maxPages := JNum ''0.5'', headless := JBool True\<rparr>))
     = Inr ''/srv/app/report.csv'' \<and>
   delete_old Map.empty ''/srv/app/report.csv'' = Inr Map.empty \<and>
   to_string (JArray [JStr ''http://a'', JNull, JNum ''1e+21'']) = Inr ''http://a,,1e+21'' \<and>
   truthy (JNum ''0.5'') \<and> to_string (JNum ''0.5'') = Inr ''0.5'' \<and>
   spawned (run_collector app_config (exec_report 0 [] (\<lambda>fs. fs)) Map.empty
      ((plain_request ''report.csv'')\<lparr>url := JArray [JStr ''http://a'', JNull, JNum ''1e+21''],
       maxPages := JNum ''0.5'', headless := JBool True\<rparr>)) =
     [Exec (quoted ''python'' @ '' '' @ quoted ''/srv/app/automated_ad_collector.py''
        @ '' --url '' @ quoted ''http://a,,1e+21''
        @ '' --csv-file '' @ quoted ''/srv/app/report.csv''
        @ '' --max-pages 0.5 --headless'')]"
proof -
  let ?req = "(plain_request ''report.csv'')\<lparr>url := JArray [JStr ''http://a'', JNull, JNum ''1e+21''],
       maxPages := JNum ''0.5'', headless := JBool True\<rparr>"
  have 1: "truthy (url ?req)"
    by (simp add: plain_request_def)
  have 2: "finalCsvFile app_config (csvFile ?req) = Inr ''/srv/app/report.csv''"
    by (simp add: plain_request_def finalCsvFile_report)
  have 3: "delete_old Map.empty ''/srv/app/report.csv'' = Inr Map.empty"
    by (simp add: delete_old_absent)
  have u: "to_string (JArray [JStr ''http://a'', JNull, JNum ''1e+21'']) = Inr ''http://a,,1e+21''"
    by simp
  have 4: "to_string (url ?req) = Inr ''http://a,,1e+21''"
    by (simp add: plain_request_def)
  have t: "truthy (JNum ''0.5'')" and m: "to_string (JNum ''0.5'') = Inr ''0.5''"
    by simp_all
  have 5: "truthy (maxPages ?req) \<longrightarrow> to_string (maxPages ?req) = Inr ''0.5''"
    by (simp add: plain_request_def)
  have "spawned (run_collector app_config (exec_report 0 [] (\<lambda>fs. fs)) Map.empty ?req) =
     [Exec (quoted ''python'' @ '' '' @ quoted ''/srv/app/automated_ad_collector.py''
        @ '' --url '' @ quoted ''http://a,,1e+21''
        @ '' --csv-file '' @ quoted ''/srv/app/report.csv''
        @ '' --max-pages 0.5 --headless'')]"
    using one_shell_command_string [where world = "exec_report 0 [] (\<lambda>fs. fs)", OF 1 2 3 4 5]
    by (simp add: plain_request_def app_config_simps)
  then show ?thesis
    by (intro conjI 1 2 3 u t m)
qed

theorem discrete_arguments_counterexample:
  "spawned (run_collector app_config (exec_report 0 [] (\<lambda>fs. fs)) Map.empty (plain_request ''report.csv''))
     = [Exec (quoted ''python'' @ '' '' @ quoted ''/srv/app/automated_ad_collector.py''
          @ '' --url '' @ quoted ''http://example.com''
          @ '' --csv-file '' @ quoted ''/srv/app/report.csv'')]
   \<and> \<not> list_all (spec_invocation app_config (plain_request ''report.csv'') ''/srv/app/report.csv'')
         (spawned (run_collector app_config (exec_report 0 [] (\<lambda>fs. fs)) Map.empty
            (plain_request ''report.csv'')))
   \<and> spawned (run_collector app_config (exec_report 0 [] (\<lambda>fs. fs)) Map.empty
         ((plain_request ''report.csv'')\<lparr>maxPages := JStr ''5 --headless''\<rparr>))
     = spawned (run_collector app_config (exec_report 0 [] (\<lambda>fs. fs)) Map.empty
         ((plain_request ''report.csv'')\<lparr>maxPages := JNum ''5'', headless := JBool True\<rparr>))
   \<and> spec_discrete_args ((plain_request ''report.csv'')\<lparr>maxPages := JStr ''5 --headless''\<rparr>)
         ''/srv/app/report.csv''
     \<noteq> spec_discrete_args ((plain_request ''report.csv'')\<lparr>maxPages := JNum ''5'', headless := JBool True\<rparr>)
         ''/srv/app/report.csv''"
proof -
  have del: "delete_old Map.empty ''/srv/app/report.csv'' = Inr Map.empty"
    by (simp add: delete_old_absent)
  have fin: "finalCsvFile app_config (JStr ''report.csv'') = Inr ''/srv/app/report.csv''"
    by (rule finalCsvFile_report)
  have run: "spawned (run_collector app_config world Map.empty req) = [Exec cmd]"
    if "truthy (url req)" "csvFile req = JStr ''report.csv''"
      "build_cmd app_config req ''/srv/app/report.csv'' = Inr cmd" for world req cmd
    using run_collector_started [of req app_config "''/srv/app/report.csv''" Map.empty Map.empty cmd world]
      that fin del by simp
  have a: "spawned (run_collector app_config (exec_report 0 [] (\<lambda>fs. fs)) Map.empty (plain_request ''report.csv''))
     = [Exec (quoted ''python'' @ '' '' @ quoted ''/srv/app/automated_ad_collector.py''
          @ '' --url '' @ quoted ''http://example.com''
          @ '' --csv-file '' @ quoted ''/srv/app/report.csv'')]"
    by (rule run) (simp_all add: plain_request_def build_cmd_def app_config_simps)
  have b: "\<not> list_all (spec_invocation app_config (plain_request ''report.csv'') ''/srv/app/report.csv'')
         (spawned (run_collector app_config (exec_report 0 [] (\<lambda>fs. fs)) Map.empty
            (plain_request ''report.csv'')))"
    unfolding a by (simp add: spec_invocation_def)
  have c1: "spawned (run_collector app_config (exec_report 0 [] (\<lambda>fs. fs)) Map.empty
         ((plain_request ''report.csv'')\<lparr>maxPages := JStr ''5 --headless''\<rparr>))
     = [Exec (plain_command ''/srv/app/report.csv'' @ '' --max-pages 5 --headless'')]"
    by (rule run) (simp_all add: plain_request_def build_cmd_def app_config_simps plain_command_def)
  have c2: "spawned (run_collector app_config (exec_report 0 [] (\<lambda>fs. fs)) Map.empty
         ((plain_request ''report.csv'')\<lparr>maxPages := JNum ''5'', headless := JBool True\<rparr>))
     = [Exec (plain_command ''/srv/app/report.csv'' @ '' --max-pages 5 --headless'')]"
    by (rule run) (simp_all add: plain_request_def build_cmd_def app_config_simps plain_command_def)
  have d: "spec_discrete_args ((plain_request ''report.csv'')\<lparr>maxPages := JStr ''5 --headless''\<rparr>)
         ''/srv/app/report.csv''
     \<noteq> spec_discrete_args ((plain_request ''report.csv'')\<lparr>maxPages := JNum ''5'', headless := JBool True\<rparr>)
         ''/srv/app/report.csv''"
    by (simp add: spec_discrete_args_def plain_request_def)
  show ?thesis
    using c1 c2 by (intro conjI a b d) simp
qed

section \<open>Resolving file names\<close>

text \<open>
  C2. Resolving a file name never gives an error for a string: a non-empty name is
  joined to the root and normalised (the empty name is falsy and gives the default
  path), and the download route sends the joined path if something exists there. With
  the root given by its segments, the joined path is what normalising the segments of
  the root followed by those of the name leaves, so a \<open>..\<close> in the name also removes
  segments of the root: \<open>../x\<close> resolves to the entry \<open>x\<close> beside the root, which is not
  under the root. When the name has no \<open>..\<close> segment, the path is the root followed by
  the segments of the name that are neither empty nor \<open>.\<close>, it is under the root, and
  the deletion of the old file changes nothing outside the root.
\<close>

theorem resolve_joins_and_normalises:
  "finalCsvFile cfg (JStr name) =
     (if name = [] then Inr (CSV_FILE cfg) else Inr (join [dirname cfg, name]))
   \<and> download cfg fs name =
       (if existsSync fs (join [dirname cfg, name]) then SendFile (join [dirname cfg, name])
        else SendText 404 ''File not found'')
   \<and> (segs \<noteq> [] \<and> list_all plain_segment segs \<and> dirname cfg = abs_path segs \<and> name \<noteq> [] \<longrightarrow>
        join [dirname cfg, name] =
          (if normalize_segments False [] (segs @ split_slash name) = [] then ''/''
           else abs_path (normalize_segments False [] (segs @ split_slash name))
                  @ (if last name = CHR ''/'' then ''/'' else []))
        \<and> (''..'' \<notin> set (split_slash name) \<longrightarrow>
              join [dirname cfg, name] =
                abs_path (segs @ filter (\<lambda>s. s \<noteq> [] \<and> s \<noteq> ''.'') (split_slash name))
                  @ (if last name = CHR ''/'' then ''/'' else [])
              \<and> under (dirname cfg) (join [dirname cfg, name])
              \<and> (\<forall>fs0 fs1 q. delete_old fs0 (join [dirname cfg, name]) = Inr fs1 \<longrightarrow>
                    \<not> under (dirname cfg) q \<longrightarrow> fs1 q = fs0 q))
        \<and> (\<forall>x. plain_segment x \<and> x \<noteq> last segs \<longrightarrow>
              join [dirname cfg, ''../'' @ x] = abs_path (butlast segs @ [x])
              \<and> \<not> under (dirname cfg) (join [dirname cfg, ''../'' @ x])))"
proof (intro conjI impI allI)
  show "finalCsvFile cfg (JStr name) =
     (if name = [] then Inr (CSV_FILE cfg) else Inr (join [dirname cfg, name]))"
    by (simp add: finalCsvFile_def)
  show "download cfg fs name =
       (if existsSync fs (join [dirname cfg, name]) then SendFile (join [dirname cfg, name])
        else SendText 404 ''File not found'')"
    by (simp add: download_def Let_def)
next
  assume a: "segs \<noteq> [] \<and> list_all plain_segment segs \<and> dirname cfg = abs_path segs \<and> name \<noteq> []"
  then have segs: "segs \<noteq> []" "\<forall>s \<in> set segs. plain_segment s"
    and root: "dirname cfg = abs_path segs" and name: "name \<noteq> []"
    by (simp_all add: list_all_iff)
  show "join [dirname cfg, name] =
          (if normalize_segments False [] (segs @ split_slash name) = [] then ''/''
           else abs_path (normalize_segments False [] (segs @ split_slash name))
                  @ (if last name = CHR ''/'' then ''/'' else []))"
    unfolding root using segs name by (rule join_normalises)
  {
    fix x
    assume x: "plain_segment x \<and> x \<noteq> last segs"
    show j: "join [dirname cfg, ''../'' @ x] = abs_path (butlast segs @ [x])"
      unfolding root using segs x by (intro join_parent) simp_all
    show "\<not> under (dirname cfg) (join [dirname cfg, ''../'' @ x])"
      unfolding j unfolding root using segs(1) x by (intro sibling_not_under) simp_all
  }
  {
    assume nodots: "''..'' \<notin> set (split_slash name)"
    let ?p = "join [dirname cfg, name]"
    let ?kept = "filter (\<lambda>s. s \<noteq> [] \<and> s \<noteq> ''.'') (split_slash name)"
    show p: "?p = abs_path (segs @ ?kept) @ (if last name = CHR ''/'' then ''/'' else [])"
      unfolding root using segs name nodots by (rule join_under_root)
    then have "?p = dirname cfg @ abs_path ?kept @ (if last name = CHR ''/'' then ''/'' else [])"
      by (simp add: abs_path_append root)
    then show u: "under (dirname cfg) ?p"
      using under_append [of "dirname cfg" ?kept "last name = CHR ''/''"] by simp
    {
      fix fs0 fs1 q
      assume d: "delete_old fs0 ?p = Inr fs1" and q: "\<not> under (dirname cfg) q"
      have "q \<noteq> ?p" using u q by auto
      with d show "fs1 q = fs0 q" by (rule delete_old_elsewhere)
    }
  }
qed

theorem resolve_joins_and_normalises_witness:
  "[''srv'', ''app''] \<noteq> [] \<and> list_all plain_segment [''srv'', ''app''] \<and>
   dirname app_config = abs_path [''srv'', ''app''] \<and>
   ''./sub//report.csv'' \<noteq> [] \<and> ''..'' \<notin> set (split_slash ''./sub//report.csv'') \<and>
   finalCsvFile app_config (JStr ''./sub//report.csv'') = Inr ''/srv/app/sub/report.csv'' \<and>
   under ''/srv/app'' ''/srv/app/sub/report.csv'' \<and>
   delete_old (Map.empty(''/srv/app/sub/report.csv'' \<mapsto> File ''old'', ''/etc/passwd'' \<mapsto> File ''root''))
       ''/srv/app/sub/report.csv''
     = Inr ((Map.empty(''/srv/app/sub/report.csv'' \<mapsto> File ''old'', ''/etc/passwd'' \<mapsto> File ''root''))
              (''/srv/app/sub/report.csv'' := None)) \<and>
   \<not> under ''/srv/app'' ''/etc/passwd'' \<and>
   ((Map.empty(''/srv/app/sub/report.csv'' \<mapsto> File ''old'', ''/etc/passwd'' \<mapsto> File ''root''))
      (''/srv/app/sub/report.csv'' := None)) ''/etc/passwd''
     = (Map.empty(''/srv/app/sub/report.csv'' \<mapsto> File ''old'', ''/etc/passwd'' \<mapsto> File ''root''))
         ''/etc/passwd'' \<and>
   plain_segment ''etc'' \<and> ''etc'' \<noteq> last [''srv'', ''app''] \<and>
   join [dirname app_config, ''../etc''] = ''/srv/etc'' \<and>
   \<not> under ''/srv/app'' ''/srv/etc''"
proof -
  have 1: "[''srv'', ''app''] \<noteq> []" by simp
  have 2: "list_all plain_segment [''srv'', ''app'']"
    by (simp add: plain_segment_def)
  have 3: "dirname app_config = abs_path [''srv'', ''app'']"
    by (simp add: app_config_simps abs_path_def)
  have 4: "''./sub//report.csv'' \<noteq> []" by simp
  have 5: "''..'' \<notin> set (split_slash ''./sub//report.csv'')" by simp
  have 6: "delete_old (Map.empty(''/srv/app/sub/report.csv'' \<mapsto> File ''old'', ''/etc/passwd'' \<mapsto> File ''root''))
       ''/srv/app/sub/report.csv''
     = Inr ((Map.empty(''/srv/app/sub/report.csv'' \<mapsto> File ''old'', ''/etc/passwd'' \<mapsto> File ''root''))
              (''/srv/app/sub/report.csv'' := None))"
    by (rule delete_old_file [where c = "''old''"]) simp
  have 7: "\<not> under ''/srv/app'' ''/etc/passwd''"
    by (simp add: under_def)
  have 8: "plain_segment ''etc''"
    by (simp add: plain_segment_def)
  have 9: "''etc'' \<noteq> last [''srv'', ''app'']"
    by simp
  have j: "join [dirname app_config, ''./sub//report.csv''] = ''/srv/app/sub/report.csv''"
    by (simp add: app_config_simps join_def normalize_def)
  note T = resolve_joins_and_normalises [of app_config "''./sub//report.csv''" Map.empty "[''srv'', ''app'']"]
  have pre: "[''srv'', ''app''] \<noteq> [] \<and> list_all plain_segment [''srv'', ''app''] \<and>
      dirname app_config = abs_path [''srv'', ''app''] \<and> ''./sub//report.csv'' \<noteq> []"
    by (intro conjI 1 2 3 4)
  note R = T [THEN conjunct2, THEN conjunct2, THEN mp, OF pre]
  note N = R [THEN conjunct2, THEN conjunct1, THEN mp, OF 5]
  have a: "finalCsvFile app_config (JStr ''./sub//report.csv'') = Inr ''/srv/app/sub/report.csv''"
    using T [THEN conjunct1] by (simp add: j)
  have b: "under ''/srv/app'' ''/srv/app/sub/report.csv''"
    using N [THEN conjunct2, THEN conjunct1]
    by (simp only: j [unfolded app_config_simps] app_config_simps)
  have del_at: "delete_old (Map.empty(''/srv/app/sub/report.csv'' \<mapsto> File ''old'', ''/etc/passwd'' \<mapsto> File ''root''))
       (join [dirname app_config, ''./sub//report.csv''])
     = Inr ((Map.empty(''/srv/app/sub/report.csv'' \<mapsto> File ''old'', ''/etc/passwd'' \<mapsto> File ''root''))
              (''/srv/app/sub/report.csv'' := None))"
    using 6 by (simp only: j)
  have outside: "\<not> under (dirname app_config) ''/etc/passwd''"
    unfolding app_config_simps by (rule 7)
  have c: "((Map.empty(''/srv/app/sub/report.csv'' \<mapsto> File ''old'', ''/etc/passwd'' \<mapsto> File ''root''))
      (''/srv/app/sub/report.csv'' := None)) ''/etc/passwd''
     = (Map.empty(''/srv/app/sub/report.csv'' \<mapsto> File ''old'', ''/etc/passwd'' \<mapsto> File ''root''))
         ''/etc/passwd''"
    using N [THEN conjunct2, THEN conjunct2] del_at outside by blast
  have sib: "plain_segment ''etc'' \<and> ''etc'' \<noteq> last [''srv'', ''app'']"
    by (intro conjI 8 9)
  note S = R [THEN conjunct2, THEN conjunct2, THEN spec, THEN mp, OF sib]
  have d: "join [dirname app_config, ''../etc''] = ''/srv/etc''"
    using S [THEN conjunct1] by (simp add: abs_path_def)
  have e: "\<not> under ''/srv/app'' ''/srv/etc''"
    using d S [THEN conjunct2] by (simp add: app_config_simps)
  show ?thesis
    by (intro conjI 1 2 3 4 5 a b 6 7 c 8 9 d e)
qed

theorem traversal_counterexample:
  "finalCsvFile app_config (JStr ''../../etc/passwd'') = Inr ''/etc/passwd''
   \<and> \<not> under (dirname app_config) ''/etc/passwd''
   \<and> fs_at_spawn (run_collector app_config (exec_report 1 [] (\<lambda>fs. fs))
        (Map.empty(''/etc/passwd'' \<mapsto> File ''root'')) (plain_request ''../../etc/passwd''))
       = Some Map.empty
   \<and> download app_config (Map.empty(''/etc/passwd'' \<mapsto> File ''root'')) ''../../etc/passwd''
       = SendFile ''/etc/passwd''"
proof -
  have j: "join [''/srv/app'', ''../../etc/passwd''] = ''/etc/passwd''"
    by (simp add: join_def normalize_def)
  have fin: "finalCsvFile app_config (csvFile (plain_request ''../../etc/passwd'')) = Inr ''/etc/passwd''"
    by (simp add: finalCsvFile_def plain_request_def app_config_simps j)
  have del: "delete_old (Map.empty(''/etc/passwd'' \<mapsto> File ''root'')) ''/etc/passwd''
      = Inr ((Map.empty(''/etc/passwd'' \<mapsto> File ''root''))(''/etc/passwd'' := None))"
    by (rule delete_old_file [where c = "''root''"]) simp
  have a: "finalCsvFile app_config (JStr ''../../etc/passwd'') = Inr ''/etc/passwd''"
    using fin by (simp add: plain_request_def)
  have b: "\<not> under (dirname app_config) ''/etc/passwd''"
    by (simp add: under_def app_config_simps)
  have c: "fs_at_spawn (run_collector app_config (exec_report 1 [] (\<lambda>fs. fs))
        (Map.empty(''/etc/passwd'' \<mapsto> File ''root'')) (plain_request ''../../etc/passwd''))
       = Some Map.empty"
    by (simp add: run_collector_started [OF example_request_truthy fin del example_cmd])
  have d: "download app_config (Map.empty(''/etc/passwd'' \<mapsto> File ''root'')) ''../../etc/passwd''
       = SendFile ''/etc/passwd''"
    by (simp add: download_def app_config_simps j existsSync_def)
  show ?thesis
    by (intro conjI a b c d)
qed

text \<open>
  C3. The download reference is \<open>/download/\<close> followed by the base name of the artifact
  path, and the download route joins the name it is given to the root. For a
  \<open>csvFile\<close> that names a file in a subdirectory the two disagree: the run below exits
  cleanly, its artifact exists at \<open>/srv/app/sub/report.csv\<close>, success is reported with
  \<open>/download/report.csv\<close>, and the route resolves \<open>report.csv\<close> to
  \<open>/srv/app/report.csv\<close>, where there is nothing.
\<close>

theorem download_reference_mismatch:
  "finalCsvFile app_config (csvFile (plain_request ''sub/report.csv'')) = Inr ''/srv/app/sub/report.csv''
   \<and> result (run_collector app_config
        (exec_report 0 [] (\<lambda>fs. fs(''/srv/app/sub/report.csv'' \<mapsto> File ''ad'')))
        Map.empty (plain_request ''sub/report.csv''))
       = Inr (Json 200 (ResultBody True [] (Some ''/download/report.csv'')))
   \<and> join [dirname app_config, ''report.csv''] = ''/srv/app/report.csv''
   \<and> download app_config
        (fs_end (run_collector app_config
           (exec_report 0 [] (\<lambda>fs. fs(''/srv/app/sub/report.csv'' \<mapsto> File ''ad'')))
           Map.empty (plain_request ''sub/report.csv'')))
        ''report.csv'' = SendText 404 ''File not found''"
proof -
  have j: "join [''/srv/app'', ''sub/report.csv''] = ''/srv/app/sub/report.csv''"
    "join [''/srv/app'', ''report.csv''] = ''/srv/app/report.csv''"
    by (simp_all add: join_def normalize_def)
  have fin: "finalCsvFile app_config (csvFile (plain_request ''sub/report.csv'')) = Inr ''/srv/app/sub/report.csv''"
    by (simp add: finalCsvFile_def plain_request_def app_config_simps j)
  have del: "delete_old Map.empty ''/srv/app/sub/report.csv'' = Inr Map.empty"
    by (simp add: delete_old_absent)
  note run = run_collector_started [OF example_request_truthy fin del example_cmd]
  have base: "basename ''/srv/app/sub/report.csv'' = ''report.csv''"
    by (simp add: basename_def)
  have a: "result (run_collector app_config
        (exec_report 0 [] (\<lambda>fs. fs(''/srv/app/sub/report.csv'' \<mapsto> File ''ad'')))
        Map.empty (plain_request ''sub/report.csv''))
       = Inr (Json 200 (ResultBody True [] (Some ''/download/report.csv'')))"
    by (simp add: run exec_report_def on_exit_def existsSync_def live_logs_def
        add_buffered_def base)
  have b: "join [dirname app_config, ''report.csv''] = ''/srv/app/report.csv''"
    by (simp add: app_config_simps j)
  have c: "download app_config
        (fs_end (run_collector app_config
           (exec_report 0 [] (\<lambda>fs. fs(''/srv/app/sub/report.csv'' \<mapsto> File ''ad'')))
           Map.empty (plain_request ''sub/report.csv'')))
        ''report.csv'' = SendText 404 ''File not found''"
    by (simp add: run exec_report_def download_def existsSync_def b)
  show ?thesis
    by (intro conjI fin a b c)
qed

text \<open>
  When \<open>csvFile\<close> is a plain file name the two resolutions agree: the reference carries
  the name, and the route given that name sends the artifact.
\<close>

lemma plain_name_resolves_back:
  assumes "segs \<noteq> []"
    and "list_all plain_segment segs"
    and "dirname cfg = abs_path segs"
    and "truthy (url req)"
    and "csvFile req = JStr name"
    and "plain_segment name"
    and "final = join [dirname cfg, name]"
    and "delete_old fs final = Inr fs1"
    and "build_cmd cfg req final = Inr cmd"
    and "r = world cmd fs1"
    and "run_error r = None"
    and "existsSync (run_fs r) final"
  shows "result (run_collector cfg world fs req) =
       Inr (Json 200 (ResultBody True
         (add_buffered (concat (map snd (run_chunks r))) (run_stdout r) (run_stderr r))
         (Some (''/download/'' @ name))))
     \<and> final = abs_path (segs @ [name])
     \<and> download cfg (fs_end (run_collector cfg world fs req)) name = SendFile final"
proof -
  have plain: "\<forall>s \<in> set segs. plain_segment s"
    using assms(2) by (simp add: list_all_iff)
  have final: "final = dirname cfg @ CHR ''/'' # name"
    unfolding assms(7) assms(3) using assms(1) plain assms(6) by (rule join_plain)
  then have base: "basename final = name"
    using assms(6) by (simp add: basename_plain)
  have fin: "finalCsvFile cfg (csvFile req) = Inr final"
    using assms(5,6,7) by (simp add: finalCsvFile_def plain_segment_def)
  note run = run_collector_started [OF assms(4) fin assms(8,9), of world, folded assms(10)]
  have a: "result (run_collector cfg world fs req) =
       Inr (Json 200 (ResultBody True
         (add_buffered (concat (map snd (run_chunks r))) (run_stdout r) (run_stderr r))
         (Some (''/download/'' @ name))))"
    unfolding run using assms(11) on_exit_success [OF assms(12)]
    by (simp only: base live_logs_concat outcome.simps)
  have b: "final = abs_path (segs @ [name])"
    unfolding final by (simp add: assms(3) abs_path_def)
  have "download cfg (run_fs r) name = SendFile final"
    using assms(12) unfolding download_def assms(7) by (simp add: Let_def)
  then have c: "download cfg (fs_end (run_collector cfg world fs req)) name = SendFile final"
    unfolding run by (simp only: outcome.simps)
  show ?thesis
    by (intro conjI a b c)
qed

section \<open>Validation\<close>

text \<open>
  C4. A request whose \<open>url\<close> is missing (or falsy in any other way) is answered with
  status 400 and \<open>URL is required\<close>; nothing is given to \<open>exec\<close>, no child is started
  and the file system is left as it was.
\<close>

theorem missing_url_client_error:
  "\<not> truthy (url req) \<Longrightarrow>
   run_collector cfg world fs req =
     \<lparr> result = Inr (Json 400 (ErrorBody ''URL is required'')), spawned = [],
       fs_at_spawn = None, fs_end = fs \<rparr>"
  by (simp add: run_collector_def)

theorem missing_url_client_error_witness:
  "\<not> truthy (url ((plain_request ''report.csv'')\<lparr>url := JUndefined\<rparr>)) \<and>
   run_collector app_config (exec_report 0 [] (\<lambda>fs. fs(''/srv/app/report.csv'' \<mapsto> File ''new'')))
       (Map.empty(''/srv/app/report.csv'' \<mapsto> File ''old''))
       ((plain_request ''report.csv'')\<lparr>url := JUndefined\<rparr>) =
     \<lparr> result = Inr (Json 400 (ErrorBody ''URL is required'')), spawned = [],
       fs_at_spawn = None, fs_end = Map.empty(''/srv/app/report.csv'' \<mapsto> File ''old'') \<rparr>"
  using missing_url_client_error [of "(plain_request ''report.csv'')\<lparr>url := JUndefined\<rparr>"
      app_config "exec_report 0 [] (\<lambda>fs. fs(''/srv/app/report.csv'' \<mapsto> File ''new''))"
      "Map.empty(''/srv/app/report.csv'' \<mapsto> File ''old'')"]
  by (simp add: plain_request_def)

section \<open>Outcome of a run\<close>




text \<open>
  C6. When \<open>exec\<close> reports an error (the program exited non-zero or ended abnormally),
  the response is 500 with \<open>success: false\<close>. Its \<open>logs\<close> are the accumulated log, that is
  all chunks in arrival order followed by the buffered stdout and stderr, unchanged, and
  then the error line. The file system after the run plays no part: nothing is assumed
  about the artifact.
\<close>

theorem run_failure_reports_logs:
  assumes "truthy (url req)"
    and "finalCsvFile cfg (csvFile req) = Inr final"
    and "delete_old fs final = Inr fs1"
    and "build_cmd cfg req final = Inr cmd"
    and "r = world cmd fs1"
    and "run_error r = Some e"
  shows "result (run_collector cfg world fs req) =
     Inr (Json 500 (ResultBody False
       (add_buffered (concat (map snd (run_chunks r))) (run_stdout r) (run_stderr r)
          @ nl @ cross_mark @ '' Error: '' @ err_message e) None))"
  using assms by (simp add: run_collector_started on_exit_error live_logs_concat)

theorem run_failure_reports_logs_witness:
  "truthy (url (plain_request ''report.csv'')) \<and>
   finalCsvFile app_config (csvFile (plain_request ''report.csv'')) = Inr ''/srv/app/report.csv'' \<and>
   delete_old Map.empty ''/srv/app/report.csv'' = Inr Map.empty \<and>
   existsSync (run_fs (exec_report 1 [(Stdout, ''page 1''), (Stderr, ''boom'')]
        (\<lambda>fs. fs(''/srv/app/report.csv'' \<mapsto> File ''partial''))
        (plain_command ''/srv/app/report.csv'') Map.empty))
      ''/srv/app/report.csv'' \<and>
   (\<exists>tail. result (run_collector app_config
        (exec_report 1 [(Stdout, ''page 1''), (Stderr, ''boom'')]
           (\<lambda>fs. fs(''/srv/app/report.csv'' \<mapsto> File ''partial'')))
        Map.empty (plain_request ''report.csv'')) =
     Inr (Json 500 (ResultBody False (''page 1boom'' @ nl @ ''page 1'' @ nl @ ''boom'' @ tail) None)))"
proof -
  let ?world = "exec_report 1 [(Stdout, ''page 1''), (Stderr, ''boom'')]
           (\<lambda>fs. fs(''/srv/app/report.csv'' \<mapsto> File ''partial''))"
  let ?req = "plain_request ''report.csv''"
  let ?r = "?world (plain_command ''/srv/app/report.csv'') Map.empty"
  have 1: "truthy (url ?req)" by (simp add: plain_request_def)
  have 2: "finalCsvFile app_config (csvFile ?req) = Inr ''/srv/app/report.csv''"
    by (simp add: plain_request_def finalCsvFile_report)
  have 3: "delete_old Map.empty ''/srv/app/report.csv'' = Inr Map.empty"
    by (simp add: delete_old_def existsSync_def)
  have 4: "run_error ?r = Some \<lparr> err_message = ''Command failed: ''
       @ plain_command ''/srv/app/report.csv'' @ nl @ ''boom'',
       err_code = Some (ExitStatus 1), err_signal = None \<rparr>"
    by (simp add: exec_report_def maxBuffer_def buffered_def)
  have 5: "existsSync (run_fs ?r) ''/srv/app/report.csv''"
    by (simp add: exec_report_def maxBuffer_def existsSync_def)
  show ?thesis
    using run_failure_reports_logs [where world = ?world and r = ?r, OF 1 2 3 example_cmd refl 4] 1 2 3 5
    by (simp add: exec_report_def maxBuffer_def buffered_def add_buffered_append)
qed

text \<open>
  C7. The callback has one branch for every error \<open>exec\<close> reports, be it a failure to
  launch, a non-zero exit or a kill. The response is 500 with \<open>success: false\<close> and the
  accumulated log followed by \<open>Error:\<close> and the message of the error. Nothing else of
  the error is read: changing its exit code or signal leaves the response the same.
\<close>

theorem failures_answered_alike:
  "on_exit final fs logs (Some e) out err =
     Json 500 (ResultBody False
       (add_buffered logs out err @ nl @ cross_mark @ '' Error: '' @ err_message e) None)
   \<and> on_exit final fs logs (Some (e\<lparr>err_code := c, err_signal := s\<rparr>)) out err =
     on_exit final fs logs (Some e) out err"
  by (simp add: on_exit_error)

theorem exit_code_not_reported_counterexample:
  "result (run_collector app_config (exec_report 1 [(Stderr, ''boom'')] (\<lambda>fs. fs)) Map.empty
      (plain_request ''report.csv''))
     = result (run_collector app_config (exec_report 2 [(Stderr, ''boom'')] (\<lambda>fs. fs)) Map.empty
      (plain_request ''report.csv''))
   \<and> map_option err_code (run_error (exec_report 1 [(Stderr, ''boom'')] (\<lambda>fs. fs)
        (plain_command ''/srv/app/report.csv'') Map.empty))
       = Some (Some (ExitStatus 1))
   \<and> map_option err_code (run_error (exec_report 2 [(Stderr, ''boom'')] (\<lambda>fs. fs)
        (plain_command ''/srv/app/report.csv'') Map.empty))
       = Some (Some (ExitStatus 2))"
proof -
  have del: "delete_old Map.empty ''/srv/app/report.csv'' = Inr Map.empty"
    by (simp add: delete_old_absent)
  note run = run_collector_started [OF example_request_truthy example_final del example_cmd]
  show ?thesis
    by (simp add: run exec_report_def maxBuffer_def on_exit_error)
qed

section \<open>Stale artifacts\<close>

text \<open>
  C8. When a file exists at the expected path of a valid request, it is removed before
  anything is started: if the command cannot be built nothing is started at all, and
  otherwise the child is started on a file system without that file. If the run then
  does not create the path, nothing exists there afterwards, the response is a failure,
  and the download route answers 404 for every name that resolves to the path.
\<close>

theorem stale_artifact_deleted_before_run:
  assumes "truthy (url req)"
    and "finalCsvFile cfg (csvFile req) = Inr final"
    and "fs final = Some (File old)"
  shows "\<not> existsSync (fs(final := None)) final
     \<and> (case build_cmd cfg req final of
          Inl e \<Rightarrow>
            spawned (run_collector cfg world fs req) = []
            \<and> fs_end (run_collector cfg world fs req) = fs(final := None)
        | Inr cmd \<Rightarrow>
            spawned (run_collector cfg world fs req) = [Exec cmd]
            \<and> fs_at_spawn (run_collector cfg world fs req) = Some (fs(final := None))
            \<and> (run_fs (world cmd (fs(final := None))) final = None \<longrightarrow>
                  \<not> existsSync (fs_end (run_collector cfg world fs req)) final
                  \<and> (\<exists>logs. result (run_collector cfg world fs req)
                               = Inr (Json 500 (ResultBody False logs None)))
                  \<and> (\<forall>name. join [dirname cfg, name] = final \<longrightarrow>
                        download cfg (fs_end (run_collector cfg world fs req)) name
                          = SendText 404 ''File not found'')))"
proof -
  have del: "delete_old fs final = Inr (fs(final := None))"
    using assms(3) by (rule delete_old_file)
  have absent: "\<not> existsSync (fs(final := None)) final"
    by (simp add: existsSync_def)
  show ?thesis
  proof (cases "build_cmd cfg req final")
    case (Inl e)
    then show ?thesis
      using absent by (simp add: run_collector_not_built [OF assms(1,2) del Inl])
  next
    case (Inr cmd)
    let ?r = "world cmd (fs(final := None))"
    note run = run_collector_started [OF assms(1,2) del Inr, of world]
    have after: "\<not> existsSync (fs_end (run_collector cfg world fs req)) final
        \<and> (\<exists>logs. result (run_collector cfg world fs req)
                     = Inr (Json 500 (ResultBody False logs None)))
        \<and> (\<forall>name. join [dirname cfg, name] = final \<longrightarrow>
              download cfg (fs_end (run_collector cfg world fs req)) name
                = SendText 404 ''File not found'')"
      if "run_fs ?r final = None"
    proof -
      have gone: "\<not> existsSync (run_fs ?r) final"
        using that by (simp add: existsSync_def)
      have "\<exists>logs. on_exit final (run_fs ?r) (live_logs (run_chunks ?r)) (run_error ?r)
                (run_stdout ?r) (run_stderr ?r) = Json 500 (ResultBody False logs None)"
        using gone by (cases "run_error ?r") (simp_all add: on_exit_error on_exit_missing)
      moreover have "download cfg (run_fs ?r) name = SendText 404 ''File not found''"
        if "join [dirname cfg, name] = final" for name
        using gone that by (simp add: download_def)
      ultimately show ?thesis
        using gone by (simp add: run)
    qed
    have "spawned (run_collector cfg world fs req) = [Exec cmd]"
      "fs_at_spawn (run_collector cfg world fs req) = Some (fs(final := None))"
      by (simp_all add: run)
    then show ?thesis
      using absent after by (simp add: Inr)
  qed
qed

theorem stale_artifact_deleted_before_run_witness:
  "truthy (url (plain_request ''report.csv'')) \<and>
   finalCsvFile app_config (csvFile (plain_request ''report.csv'')) = Inr ''/srv/app/report.csv'' \<and>
   (Map.empty(''/srv/app/report.csv'' \<mapsto> File ''old'')) ''/srv/app/report.csv'' = Some (File ''old'') \<and>
   build_cmd app_config (plain_request ''report.csv'') ''/srv/app/report.csv''
     = Inr (plain_command ''/srv/app/report.csv'') \<and>
   run_fs (exec_report 1 [(Stderr, ''no browser'')] (\<lambda>fs. fs) (plain_command ''/srv/app/report.csv'')
      ((Map.empty(''/srv/app/report.csv'' \<mapsto> File ''old''))(''/srv/app/report.csv'' := None)))
      ''/srv/app/report.csv'' = None \<and>
   join [dirname app_config, ''report.csv''] = ''/srv/app/report.csv'' \<and>
   spawned (run_collector app_config (exec_report 1 [(Stderr, ''no browser'')] (\<lambda>fs. fs))
      (Map.empty(''/srv/app/report.csv'' \<mapsto> File ''old'')) (plain_request ''report.csv''))
     = [Exec (plain_command ''/srv/app/report.csv'')] \<and>
   fs_at_spawn (run_collector app_config (exec_report 1 [(Stderr, ''no browser'')] (\<lambda>fs. fs))
      (Map.empty(''/srv/app/report.csv'' \<mapsto> File ''old'')) (plain_request ''report.csv''))
     = Some ((Map.empty(''/srv/app/report.csv'' \<mapsto> File ''old''))(''/srv/app/report.csv'' := None)) \<and>
   download app_config
      (fs_end (run_collector app_config (exec_report 1 [(Stderr, ''no browser'')] (\<lambda>fs. fs))
         (Map.empty(''/srv/app/report.csv'' \<mapsto> File ''old'')) (plain_request ''report.csv'')))
      ''report.csv'' = SendText 404 ''File not found''"
proof -
  let ?fs = "Map.empty(''/srv/app/report.csv'' \<mapsto> File ''old'')"
  let ?world = "exec_report 1 [(Stderr, ''no browser'')] (\<lambda>fs. fs)"
  let ?out = "run_collector app_config ?world ?fs (plain_request ''report.csv'')"
  have 3: "?fs ''/srv/app/report.csv'' = Some (File ''old'')"
    by simp
  have 4: "run_fs (?world (plain_command ''/srv/app/report.csv'')
      (?fs(''/srv/app/report.csv'' := None))) ''/srv/app/report.csv'' = None"
    by (simp add: exec_report_def maxBuffer_def)
  have 5: "join [dirname app_config, ''report.csv''] = ''/srv/app/report.csv''"
    by (simp add: app_config_simps join_def normalize_def)
  note T = stale_artifact_deleted_before_run [where world = ?world and fs = ?fs
        and final = "''/srv/app/report.csv''" and old = "''old''" and cfg = app_config
        and req = "plain_request ''report.csv''",
      OF example_request_truthy example_final 3, THEN conjunct2, unfolded example_cmd sum.case]
  note A = T [THEN conjunct2, THEN conjunct2, THEN mp, OF 4]
  have a: "spawned ?out = [Exec (plain_command ''/srv/app/report.csv'')]"
    using T [THEN conjunct1] .
  have b: "fs_at_spawn ?out = Some (?fs(''/srv/app/report.csv'' := None))"
    using T [THEN conjunct2, THEN conjunct1] .
  have c: "download app_config (fs_end ?out) ''report.csv'' = SendText 404 ''File not found''"
    using A [THEN conjunct2, THEN conjunct2, THEN spec, THEN mp, OF 5] .
  show ?thesis
    by (intro conjI example_request_truthy example_final 3 example_cmd 4 5 a b c)
qed

section \<open>The combined log\<close>











lemma count_list_app: "count_list (xs @ ys) y = count_list xs y + count_list ys y"
  by (induction xs) simp_all


lemma fewer_than_two_copies:
  "count_list logs x < 2 * count_list d x \<Longrightarrow> logs \<noteq> a @ d @ b @ d @ c"
  by (auto simp: count_list_app)





end
